theory Spec2Isabelle
  imports Main
begin

section \<open>Python primitives used by the network scan\<close>

text \<open>
  The scan endpoint of \<^verbatim>\<open>backend/app.py\<close> works on Python strings and lists. The
  primitives it calls are embedded here as total HOL functions; where Python could
  raise, the embedding says so in its result type.
\<close>

text \<open>
  \<^verbatim>\<open>s.split(".")\<close>: the fields between the separators, in order. The result
  always has one field more than the string has separators, so it is never empty
  (\<^verbatim>\<open>"".split(".") == [""]\<close>).
\<close>

fun py_split :: "char \<Rightarrow> string \<Rightarrow> string list" where
  "py_split sep [] = [[]]"
| "py_split sep (c # cs) =
     (if c = sep then [] # py_split sep cs
      else (case py_split sep cs of [] \<Rightarrow> [[c]] | f # fs \<Rightarrow> (c # f) # fs))"

text \<open>\<^verbatim>\<open>sep.join(xs)\<close>.\<close>

fun py_join :: "string \<Rightarrow> string list \<Rightarrow> string" where
  "py_join sep [] = []"
| "py_join sep [x] = x"
| "py_join sep (x # y # ys) = x @ sep @ py_join sep (y # ys)"

text \<open>
  \<^verbatim>\<open>str(i)\<close> for a non-negative integer, as the f-string \<^verbatim>\<open>f"{base}{i}"\<close>
  formats the loop counter: decimal, most significant digit first, no padding.
\<close>

definition digit_char :: "nat \<Rightarrow> char" where
  "digit_char d = ''0123456789'' ! d"

fun py_str :: "nat \<Rightarrow> string" where
  "py_str n = (if n < 10 then [digit_char n] else py_str (n div 10) @ [digit_char (n mod 10)])"

declare py_str.simps [simp del]

text \<open>\<^verbatim>\<open>range(a, b)\<close> over non-negative integers.\<close>

definition py_range :: "nat \<Rightarrow> nat \<Rightarrow> nat list" where
  "py_range a b = [a..<b]"

text \<open>\<^verbatim>\<open>s.lower()\<close> on ASCII text (the operating-system name).\<close>

definition lower_char :: "char \<Rightarrow> char" where
  "lower_char c =
     (if 65 \<le> (of_char c :: nat) \<and> (of_char c :: nat) \<le> 90
      then char_of ((of_char c :: nat) + 32) else c)"

definition py_lower :: "string \<Rightarrow> string" where
  "py_lower s = map lower_char s"

text \<open>
  Exceptions are values. Every exception the model raises derives from Python's
  \<^verbatim>\<open>Exception\<close>; \<open>RuntimeError\<close> stands for that class and its subclasses,
  \<open>OtherException\<close> for every other subclass of \<^verbatim>\<open>Exception\<close>. The argument
  is \<^verbatim>\<open>str(e)\<close>. Signals that derive from \<^verbatim>\<open>BaseException\<close> only
  (interpreter exit, keyboard interrupt, task cancellation) are outside the model.
\<close>

datatype py_exception = RuntimeError string | OtherException string

fun exc_str :: "py_exception \<Rightarrow> string" where
  "exc_str (RuntimeError m) = m"
| "exc_str (OtherException m) = m"

section \<open>Subnet base and candidate addresses\<close>

text \<open>
  Line 119 of \<^verbatim>\<open>scan_network\<close>:
  \<^verbatim>\<open>base = ".".join(local_ip.split(".")[:3]) + "."\<close>.
  The slice \<^verbatim>\<open>[:3]\<close> keeps at most three fields and never raises.
\<close>

definition subnet_base :: "string \<Rightarrow> string" where
  "subnet_base local_ip = py_join ''.'' (take 3 (py_split CHR ''.'' local_ip)) @ ''.''"

text \<open>
  Line 126 of \<^verbatim>\<open>run_scan\<close>: the addresses \<^verbatim>\<open>f"{base}{i}"\<close> for
  \<^verbatim>\<open>i in range(1, 255)\<close>, in the order of the comprehension.
\<close>

definition candidate_ips :: "string \<Rightarrow> string list" where
  "candidate_ips base = map (\<lambda>i. base @ py_str i) (py_range 1 255)"

text \<open>
  The derivation as one step, with Python's exception channel made explicit:
  \<open>Inl e\<close> would be a raised exception. Neither line validates its input and none
  of \<^verbatim>\<open>split\<close>, the slice, \<^verbatim>\<open>join\<close> and the f-string can raise on a
  string, so the source has no failing branch to translate.
\<close>

definition derive_candidates :: "string \<Rightarrow> py_exception + string list" where
  "derive_candidates local_ip = Inr (candidate_ips (subnet_base local_ip))"

subsection \<open>Well-formed addresses\<close>

text \<open>
  What the claims call a valid IPv4 address string: four dot-separated fields, each
  a non-empty decimal numeral of value at most 255. These predicates describe inputs;
  the scan itself never evaluates them.
\<close>

definition is_digit :: "char \<Rightarrow> bool" where
  "is_digit c = (48 \<le> (of_char c :: nat) \<and> (of_char c :: nat) \<le> 57)"

definition dec_value :: "string \<Rightarrow> nat" where
  "dec_value s = foldl (\<lambda>acc c. 10 * acc + ((of_char c :: nat) - 48)) 0 s"

definition is_octet :: "string \<Rightarrow> bool" where
  "is_octet f = (f \<noteq> [] \<and> list_all is_digit f \<and> dec_value f \<le> 255)"

definition valid_ipv4 :: "string \<Rightarrow> bool" where
  "valid_ipv4 s =
     (let fs = py_split CHR ''.'' s in length fs = 4 \<and> list_all is_octet fs)"

definition dotted_quad :: "string \<Rightarrow> string \<Rightarrow> string \<Rightarrow> string \<Rightarrow> string" where
  "dotted_quad a b c d = a @ ''.'' @ b @ ''.'' @ c @ ''.'' @ d"

text \<open>The number in the last dot-separated field of an address.\<close>

definition last_octet :: "string \<Rightarrow> nat" where
  "last_octet s = dec_value (last (py_split CHR ''.'' s))"

section \<open>The liveness probe\<close>

text \<open>
  \<^verbatim>\<open>ping_ip(ip, param)\<close> runs one external \<^verbatim>\<open>ping\<close> process. What happens to
  that process is decided outside the program and is an input of the model:
  \<^verbatim>\<open>create_subprocess_exec\<close> raises, \<^verbatim>\<open>communicate\<close> raises, or the process
  exits with a return code, having written some bytes to its two output streams. A
  process that never exits is a task that never completes; see \<open>gather\<close> below.
\<close>

datatype proc_outcome =
    LaunchFails py_exception
  | WaitFails py_exception
  | Exited int string string

text \<open>
  The argument vector of lines 98 to 99. The parameter \<open>ip\<close> of the source is
  written \<open>addr\<close> throughout, since \<open>ip\<close> names a field of the report below.
\<close>

definition ping_argv :: "string \<Rightarrow> string \<Rightarrow> string list" where
  "ping_argv param addr = [''ping'', param, ''1'', ''-w'', ''500'', addr]"

text \<open>
  The body of the \<^verbatim>\<open>try\<close>: both streams go to \<^verbatim>\<open>DEVNULL\<close>, so what the
  process wrote is dropped and the result is \<^verbatim>\<open>proc.returncode == 0\<close>.
\<close>

definition ping_ip_try ::
  "(string list \<Rightarrow> proc_outcome) \<Rightarrow> string \<Rightarrow> string \<Rightarrow> py_exception + bool" where
  "ping_ip_try spawn addr param =
     (case spawn (ping_argv param addr) of
        LaunchFails e \<Rightarrow> Inl e
      | WaitFails e \<Rightarrow> Inl e
      | Exited returncode out err \<Rightarrow> Inr (returncode = 0))"

text \<open>\<^verbatim>\<open>except Exception: return False\<close> around that body.\<close>

definition ping_ip ::
  "(string list \<Rightarrow> proc_outcome) \<Rightarrow> string \<Rightarrow> string \<Rightarrow> py_exception + bool" where
  "ping_ip spawn addr param =
     (case ping_ip_try spawn addr param of
        Inl e \<Rightarrow> Inr False
      | Inr alive \<Rightarrow> Inr alive)"

section \<open>Awaiting all probes\<close>

text \<open>
  \<^verbatim>\<open>asyncio.gather(*tasks)\<close> is library code; it is modelled by what its
  documentation promises. The tasks complete in an order the scheduler and the
  network choose: \<open>order\<close> lists the indices of the tasks as they complete, and
  \<open>rs ! k\<close> is what task \<open>k\<close> produces when it does. Each result goes into the
  slot of its own task. The first exception a task raises is raised by
  \<^verbatim>\<open>gather\<close> at once. The call returns the slots, in the order of the tasks, once
  every slot is filled; while one is empty it keeps waiting, and if the order ends
  with a slot still empty the call never returns, which is the value \<open>None\<close>.
\<close>

fun gather_fill ::
  "(py_exception + 'a) list \<Rightarrow> 'a option list \<Rightarrow> nat list \<Rightarrow> py_exception + 'a option list" where
  "gather_fill rs slots [] = Inr slots"
| "gather_fill rs slots (k # ks) =
     (if k < length rs
      then (case rs ! k of
              Inl e \<Rightarrow> Inl e
            | Inr v \<Rightarrow> gather_fill rs (slots[k := Some v]) ks)
      else gather_fill rs slots ks)"

definition gather :: "nat list \<Rightarrow> (py_exception + 'a) list \<Rightarrow> (py_exception + 'a list) option" where
  "gather order rs =
     (case gather_fill rs (replicate (length rs) None) order of
        Inl e \<Rightarrow> Some (Inl e)
      | Inr slots \<Rightarrow>
          (if list_all (\<lambda>s. s \<noteq> None) slots then Some (Inr (map the slots)) else None))"

section \<open>The scan endpoint\<close>

text \<open>
  The JSON report: \<^verbatim>\<open>{"local_ip": ..., "devices": [{"ip": ..., "status": "alive"}],
  "timestamp": ...}\<close>. The key \<^verbatim>\<open>timestamp\<close> is absent until the last step.
\<close>

record device =
  ip :: string
  status :: string

record results =
  local_ip :: string
  devices :: "device list"
  timestamp :: "string option"

text \<open>
  The row \<^verbatim>\<open>save_scan_to_supabase(ip, details)\<close> inserts: the payload
  \<^verbatim>\<open>{"ip": ip, "details": {"status": ..., "scanned_at": ...}}\<close>, flattened.
\<close>

record scan_row =
  row_ip :: string
  row_status :: string
  row_scanned_at :: string

text \<open>
  Everything the endpoint reads from outside: the host name and its resolution, the
  operating-system name, the fate of each probe process, the order in which the probes
  complete, whether \<^verbatim>\<open>asyncio.run\<close> and the fallback
  \<^verbatim>\<open>loop.run_until_complete\<close> can run a coroutine here (\<open>Some e\<close>: the call
  raises \<open>e\<close> before the coroutine starts, as \<^verbatim>\<open>asyncio.run\<close> does inside a
  running loop), whether an insert into the \<^verbatim>\<open>scans\<close> table raises, and the
  clock, read in sequence.
\<close>

record env =
  gethostname :: string
  gethostbyname :: "string \<Rightarrow> py_exception + string"
  platform_system :: string
  spawn :: "string list \<Rightarrow> proc_outcome"
  completion_order :: "nat list"
  asyncio_run :: "py_exception option"
  run_until_complete :: "py_exception option"
  insert_scan :: "scan_row \<Rightarrow> py_exception option"
  utcnow :: "nat \<Rightarrow> string"

text \<open>
  Everything the endpoint does to the outside: the probe processes it asked for, the
  rows it tried to insert, the lines it logged, and how often it read the clock.
\<close>

record effects =
  probed :: "string list list"
  attempted :: "scan_row list"
  logged :: "string list"
  clock_reads :: nat

definition no_effects :: effects where
  "no_effects = \<lparr>probed = [], attempted = [], logged = [], clock_reads = 0\<rparr>"

text \<open>
  Lines 128 to 131: the loop over \<^verbatim>\<open>enumerate(responses, start=1)\<close> appends one
  device for each response that is true.
\<close>

fun collect_alive :: "string \<Rightarrow> (nat \<times> bool) list \<Rightarrow> results \<Rightarrow> results" where
  "collect_alive base [] res = res"
| "collect_alive base ((i, alive) # rest) res =
     collect_alive base rest
       (if alive
        then res\<lparr>devices := devices res @ [\<lparr>ip = base @ py_str i, status = ''alive''\<rparr>]\<rparr>
        else res)"

text \<open>
  The coroutine \<^verbatim>\<open>run_scan\<close>, lines 125 to 132: one task per candidate address,
  all awaited together, then the loop above. It works on the \<^verbatim>\<open>results\<close> of the
  enclosing call, passed in and returned here.
\<close>

definition run_scan ::
  "env \<Rightarrow> string \<Rightarrow> string \<Rightarrow> results \<Rightarrow> effects \<Rightarrow> ((py_exception + results) \<times> effects) option" where
  "run_scan w base param res fx =
     (let addrs = candidate_ips base;
          tasks = map (\<lambda>addr. ping_ip (spawn w) addr param) addrs;
          fx' = fx\<lparr>probed := probed fx @ map (ping_argv param) addrs\<rparr>
      in case gather (completion_order w) tasks of
           None \<Rightarrow> None
         | Some (Inl e) \<Rightarrow> Some (Inl e, fx')
         | Some (Inr responses) \<Rightarrow>
             Some (Inr (collect_alive base (enumerate 1 responses) res), fx'))"

text \<open>
  Lines 145 to 150: the loop that saves each device. An exception of the insert leaves
  the loop, since the \<^verbatim>\<open>try\<close> encloses the whole loop.
\<close>

fun save_devices :: "env \<Rightarrow> device list \<Rightarrow> effects \<Rightarrow> py_exception option \<times> effects" where
  "save_devices w [] fx = (None, fx)"
| "save_devices w (d # ds) fx =
     (let row = \<lparr>row_ip = ip d, row_status = status d,
                 row_scanned_at = utcnow w (clock_reads fx)\<rparr>;
          fx' = fx\<lparr>attempted := attempted fx @ [row], clock_reads := clock_reads fx + 1\<rparr>
      in case insert_scan w row of
           Some e \<Rightarrow> (Some e, fx')
         | None \<Rightarrow> save_devices w ds fx')"

datatype response = Ok200 results | Error500 string | Uncaught py_exception

text \<open>
  Lines 144 to 156: save the devices, log a failure of that, stamp the report and
  return it.
\<close>

definition finish_scan :: "env \<Rightarrow> results \<Rightarrow> effects \<Rightarrow> response \<times> effects" where
  "finish_scan w res fx =
     (let (failure, fx1) = save_devices w (devices res) fx;
          fx2 = (case failure of
                   None \<Rightarrow> fx1
                 | Some e \<Rightarrow>
                     fx1\<lparr>logged := logged fx1 @
                       [''Supabase save_scan_to_supabase error: '' @ exc_str e]\<rparr>)
      in (Ok200 (res\<lparr>timestamp := Some (utcnow w (clock_reads fx2))\<rparr>),
          fx2\<lparr>clock_reads := clock_reads fx2 + 1\<rparr>))"

text \<open>
  Lines 136 to 142: the handlers of the \<^verbatim>\<open>try\<close> around \<^verbatim>\<open>asyncio.run\<close>. A
  \<^verbatim>\<open>RuntimeError\<close> runs the coroutine again on the current event loop, and an
  exception raised there is not caught by the sibling handler; any other exception is
  logged and answered with status 500.
\<close>

fun scan_except ::
  "env \<Rightarrow> string \<Rightarrow> string \<Rightarrow> results \<Rightarrow> effects \<Rightarrow> py_exception \<Rightarrow> (response \<times> effects) option" where
  "scan_except w base param res fx (RuntimeError m) =
     (case run_until_complete w of
        Some e \<Rightarrow> Some (Uncaught e, fx)
      | None \<Rightarrow>
          (case run_scan w base param res fx of
             None \<Rightarrow> None
           | Some (Inl e, fx1) \<Rightarrow> Some (Uncaught e, fx1)
           | Some (Inr res1, fx1) \<Rightarrow> Some (finish_scan w res1 fx1)))"
| "scan_except w base param res fx (OtherException m) =
     Some (Error500 m, fx\<lparr>logged := logged fx @ [''Ping scan failed: '' @ m]\<rparr>)"

text \<open>
  Lines 113 to 117: the local address is what the resolver gives for the host name,
  and the loopback address when the resolver raises.
\<close>

definition resolve_local_ip :: "env \<Rightarrow> string" where
  "resolve_local_ip w =
     (let hostname = gethostname w
      in case gethostbyname w hostname of
           Inl e \<Rightarrow> ''127.0.0.1''
         | Inr a \<Rightarrow> a)"

text \<open>Line 120: the count flag of \<^verbatim>\<open>ping\<close> for the host's operating system.\<close>

definition ping_param :: "env \<Rightarrow> string" where
  "ping_param w = (if py_lower (platform_system w) = ''windows'' then ''-n'' else ''-c'')"

text \<open>The view function \<^verbatim>\<open>scan_network\<close>, lines 112 to 156.\<close>

definition scan_network :: "env \<Rightarrow> (response \<times> effects) option" where
  "scan_network w =
     (let local_ip = resolve_local_ip w;
          base = subnet_base local_ip;
          param = ping_param w;
          results = \<lparr>local_ip = local_ip, devices = [], timestamp = None\<rparr>
      in case asyncio_run w of
           Some e \<Rightarrow> scan_except w base param results no_effects e
         | None \<Rightarrow>
             (case run_scan w base param results no_effects of
                None \<Rightarrow> None
              | Some (Inl e, fx1) \<Rightarrow> scan_except w base param results fx1 e
              | Some (Inr res1, fx1) \<Rightarrow> Some (finish_scan w res1 fx1)))"

section \<open>Notions the properties are stated with\<close>

text \<open>
  The event loop runs the coroutine: \<^verbatim>\<open>asyncio.run\<close> does, or it raises
  \<^verbatim>\<open>RuntimeError\<close> and the fallback loop does.
\<close>

definition loop_runs :: "env \<Rightarrow> bool" where
  "loop_runs w =
     (case asyncio_run w of
        None \<Rightarrow> True
      | Some (RuntimeError m) \<Rightarrow> run_until_complete w = None
      | Some (OtherException m) \<Rightarrow> False)"

text \<open>Each of the 254 probe tasks (indices 0 to 253) completes at some point.\<close>

definition all_probes_complete :: "env \<Rightarrow> bool" where
  "all_probes_complete w = list_all (\<lambda>k. k \<in> set (completion_order w)) [0..<254]"

text \<open>
  The addresses of the derived subnet whose probe process exits with status 0, in
  the order of the candidates, each as a device of the report.
\<close>

definition responds :: "env \<Rightarrow> string \<Rightarrow> bool" where
  "responds w addr =
     (case spawn w (ping_argv (ping_param w) addr) of
        Exited returncode out err \<Rightarrow> returncode = 0
      | _ \<Rightarrow> False)"

definition alive_devices :: "env \<Rightarrow> device list" where
  "alive_devices w =
     map (\<lambda>addr. \<lparr>ip = addr, status = ''alive''\<rparr>)
       (filter (responds w) (candidate_ips (subnet_base (resolve_local_ip w))))"

text \<open>A response without the time stamp of its report.\<close>

fun unstamped :: "response \<Rightarrow> response" where
  "unstamped (Ok200 r) = Ok200 (r\<lparr>timestamp := None\<rparr>)"
| "unstamped (Error500 m) = Error500 m"
| "unstamped (Uncaught e) = Uncaught e"

text \<open>
  The rows the saving loop passes to the insert for the devices \<open>ds\<close> when \<open>n\<close>
  clock readings came before: row \<open>k\<close> carries reading \<open>n + k\<close>.
\<close>

fun rows_for :: "env \<Rightarrow> nat \<Rightarrow> device list \<Rightarrow> scan_row list" where
  "rows_for w n [] = []"
| "rows_for w n (d # ds) =
     \<lparr>row_ip = ip d, row_status = status d, row_scanned_at = utcnow w n\<rparr> # rows_for w (Suc n) ds"

text \<open>A list up to and including its first element that satisfies \<open>P\<close>.\<close>

fun through_first :: "('a \<Rightarrow> bool) \<Rightarrow> 'a list \<Rightarrow> 'a list" where
  "through_first P [] = []"
| "through_first P (x # xs) = (if P x then [x] else x # through_first P xs)"

text \<open>
  The exception of the first insert that raises among the rows, if any does.
\<close>

fun first_failure :: "(scan_row \<Rightarrow> py_exception option) \<Rightarrow> scan_row list \<Rightarrow> py_exception option" where
  "first_failure ins [] = None"
| "first_failure ins (row # rows) =
     (case ins row of Some e \<Rightarrow> Some e | None \<Rightarrow> first_failure ins rows)"

subsection \<open>Sample environments\<close>

text \<open>
  A POSIX host that resolves to 192.168.1.10 on a subnet where the hosts .1, .50
  and .254 answer, with probes that complete in task order, a working event loop, a
  working store and a clock that reads \<open>t0\<close>, \<open>t1\<close>, ...
\<close>

definition sample_spawn :: "string list \<Rightarrow> proc_outcome" where
  "sample_spawn argv =
     (if last argv = ''192.168.1.1'' \<or> last argv = ''192.168.1.50''
         \<or> last argv = ''192.168.1.254''
      then Exited 0 ''reply'' [] else Exited 1 [] ''timeout'')"

definition sample_env :: env where
  "sample_env =
     \<lparr>gethostname = ''scanner'',
      gethostbyname = (\<lambda>h. Inr ''192.168.1.10''),
      platform_system = ''Linux'',
      spawn = sample_spawn,
      completion_order = [0..<254],
      asyncio_run = None,
      run_until_complete = None,
      insert_scan = (\<lambda>row. None),
      utcnow = (\<lambda>n. CHR ''t'' # py_str n)\<rparr>"

text \<open>The same host with a store that raises on every insert.\<close>

definition failing_store_env :: env where
  "failing_store_env = sample_env\<lparr>insert_scan := (\<lambda>row. Some (OtherException ''store down''))\<rparr>"

text \<open>The same host when the probes complete in the reverse order.\<close>

definition reversed_env :: env where
  "reversed_env = sample_env\<lparr>completion_order := rev [0..<254]\<rparr>"

text \<open>A host whose name does not resolve.\<close>

definition unresolved_env :: env where
  "unresolved_env = sample_env\<lparr>gethostbyname := (\<lambda>h. Inl (OtherException ''gaierror''))\<rparr>"

text \<open>
  A host where probe 7 never completes, one where \<^verbatim>\<open>asyncio.run\<close> raises an error
  that is not a \<^verbatim>\<open>RuntimeError\<close>, and one where both loops raise.
\<close>

definition stuck_env :: env where
  "stuck_env = sample_env\<lparr>completion_order := filter (\<lambda>k. k \<noteq> 7) [0..<254]\<rparr>"

definition broken_loop_env :: env where
  "broken_loop_env = sample_env\<lparr>asyncio_run := Some (OtherException ''no loop'')\<rparr>"

definition nested_loop_env :: env where
  "nested_loop_env =
     sample_env\<lparr>asyncio_run := Some (RuntimeError ''loop is running''),
                run_until_complete := Some (RuntimeError ''loop is already running'')\<rparr>"

text \<open>
  What the sample host asks of the probe primitive, the devices that answer there,
  and its report with a given time stamp.
\<close>

definition sample_probes :: "string list list" where
  "sample_probes = map (ping_argv ''-c'') (candidate_ips ''192.168.1.'')"

definition sample_devices :: "device list" where
  "sample_devices =
     [\<lparr>ip = ''192.168.1.1'', status = ''alive''\<rparr>,
      \<lparr>ip = ''192.168.1.50'', status = ''alive''\<rparr>,
      \<lparr>ip = ''192.168.1.254'', status = ''alive''\<rparr>]"

definition sample_report :: "string \<Rightarrow> results" where
  "sample_report stamp =
     \<lparr>local_ip = ''192.168.1.10'', devices = sample_devices, timestamp = Some stamp\<rparr>"

section \<open>Strings: decimal numerals, splitting and joining\<close>

lemma digit_cases:
  "d < 10 \<Longrightarrow> d = 0 \<or> d = 1 \<or> d = 2 \<or> d = 3 \<or> d = 4 \<or> d = 5 \<or> d = 6 \<or> d = 7 \<or> d = 8 \<or> d = (9::nat)"
  by arith

lemma digit_char_is_digit: "d < 10 \<Longrightarrow> is_digit (digit_char d)"
  using digit_cases [of d] by (auto simp: is_digit_def digit_char_def)

lemma digit_char_value: "d < 10 \<Longrightarrow> (of_char (digit_char d) :: nat) - 48 = d"
  using digit_cases [of d] by (auto simp: digit_char_def)

lemma py_str_digits: "list_all is_digit (py_str n)"
proof (induction n rule: py_str.induct)
  case (1 n)
  show ?case
  proof (cases "n < 10")
    case True
    then show ?thesis by (simp add: py_str.simps [of n] digit_char_is_digit)
  next
    case False
    with 1 show ?thesis by (simp add: py_str.simps [of n] digit_char_is_digit)
  qed
qed

lemma dec_value_snoc: "dec_value (s @ [c]) = 10 * dec_value s + ((of_char c :: nat) - 48)"
  by (simp add: dec_value_def)

lemma dec_value_py_str: "dec_value (py_str n) = n"
proof (induction n rule: py_str.induct)
  case (1 n)
  show ?case
  proof (cases "n < 10")
    case True
    then show ?thesis by (simp add: py_str.simps [of n] dec_value_def digit_char_value)
  next
    case False
    with 1 show ?thesis by (simp add: py_str.simps [of n] dec_value_snoc digit_char_value)
  qed
qed

lemma py_str_inj: "py_str m = py_str n \<Longrightarrow> m = n"
  by (metis dec_value_py_str)

lemma digits_no_dot: "list_all is_digit s \<Longrightarrow> CHR ''.'' \<notin> set s"
  by (auto simp: list_all_iff is_digit_def)

lemma py_str_no_dot: "CHR ''.'' \<notin> set (py_str n)"
  by (rule digits_no_dot [OF py_str_digits])

lemma is_octet_no_dot: "is_octet f \<Longrightarrow> CHR ''.'' \<notin> set f"
  by (simp add: is_octet_def digits_no_dot)

lemma py_split_nonempty: "py_split sep s \<noteq> []"
  by (induction s) (auto split: list.splits)

lemma py_split_field: "sep \<notin> set a \<Longrightarrow> py_split sep (a @ sep # rest) = a # py_split sep rest"
  by (induction a) auto

lemma py_split_single: "sep \<notin> set a \<Longrightarrow> py_split sep a = [a]"
  by (induction a) auto

lemma py_split_join:
  "fs \<noteq> [] \<Longrightarrow> list_all (\<lambda>f. sep \<notin> set f) fs \<Longrightarrow> py_split sep (py_join [sep] fs) = fs"
proof (induction "[sep]" fs rule: py_join.induct)
  case 1
  then show ?case by simp
next
  case (2 x)
  then show ?case by (simp add: py_split_single)
next
  case (3 x y ys)
  then show ?case by (simp add: py_split_field)
qed

lemma py_join_split: "py_join [sep] (py_split sep s) = s"
proof (induction s)
  case Nil
  then show ?case by simp
next
  case (Cons c s)
  then show ?case
    by (cases "py_split sep s"; cases "tl (py_split sep s)") (auto split: list.splits)
qed

lemma py_split_fields_no_sep: "list_all (\<lambda>f. sep \<notin> set f) (py_split sep s)"
  by (induction s) (auto split: list.splits)

section \<open>The candidate addresses\<close>

lemma py_split_dotted_quad:
  assumes "CHR ''.'' \<notin> set a" "CHR ''.'' \<notin> set b" "CHR ''.'' \<notin> set c" "CHR ''.'' \<notin> set d"
  shows "py_split CHR ''.'' (dotted_quad a b c d) = [a, b, c, d]"
  using assms by (simp add: dotted_quad_def py_split_field py_split_single)

lemma subnet_base_dotted_quad:
  assumes "CHR ''.'' \<notin> set a" "CHR ''.'' \<notin> set b" "CHR ''.'' \<notin> set c" "CHR ''.'' \<notin> set d"
  shows "subnet_base (dotted_quad a b c d) = a @ ''.'' @ b @ ''.'' @ c @ ''.''"
  by (simp add: subnet_base_def py_split_dotted_quad [OF assms])

lemma length_candidate_ips: "length (candidate_ips base) = 254"
  by (simp add: candidate_ips_def py_range_def)

lemma distinct_candidate_ips: "distinct (candidate_ips base)"
  by (auto simp: candidate_ips_def py_range_def distinct_map intro!: inj_onI dest: py_str_inj)

text \<open>
  The valid address strings are exactly the strings \<open>dotted_quad a b c d\<close> of four
  octets.
\<close>

lemma valid_ipv4_iff:
  "valid_ipv4 s \<longleftrightarrow>
     (\<exists>a b c d. is_octet a \<and> is_octet b \<and> is_octet c \<and> is_octet d \<and> s = dotted_quad a b c d)"
proof
  assume v: "valid_ipv4 s"
  then obtain a b c d where fs: "py_split CHR ''.'' s = [a, b, c, d]"
    by (auto simp: valid_ipv4_def Let_def length_Suc_conv numeral_eq_Suc)
  with v have "is_octet a \<and> is_octet b \<and> is_octet c \<and> is_octet d"
    by (simp add: valid_ipv4_def)
  moreover have "s = dotted_quad a b c d"
    using py_join_split [of "CHR ''.''" s] fs by (simp add: dotted_quad_def)
  ultimately show "\<exists>a b c d. is_octet a \<and> is_octet b \<and> is_octet c \<and> is_octet d \<and> s = dotted_quad a b c d"
    by blast
next
  assume "\<exists>a b c d. is_octet a \<and> is_octet b \<and> is_octet c \<and> is_octet d \<and> s = dotted_quad a b c d"
  then show "valid_ipv4 s"
    by (auto simp: valid_ipv4_def py_split_dotted_quad is_octet_no_dot)
qed

text \<open>
  Claim C1. For every valid local IPv4 address string, that is for the dotted quad of
  any four octets \<open>a\<close>, \<open>b\<close>, \<open>c\<close>, \<open>d\<close>, the derivation returns exactly the
  addresses \<open>a.b.c.1\<close> to \<open>a.b.c.254\<close>: 254 of them, pairwise different, each with
  \<open>a\<close>, \<open>b\<close>, \<open>c\<close> as its first three fields, and with the last octets 1, 2, ...,
  254 in this order.
\<close>

theorem candidates_of_valid_address:
  assumes "is_octet a" "is_octet b" "is_octet c" "is_octet d"
  shows "derive_candidates (dotted_quad a b c d)
           = Inr (map (\<lambda>i. dotted_quad a b c (py_str i)) [1..<255])
       \<and> length (candidate_ips (subnet_base (dotted_quad a b c d))) = 254
       \<and> distinct (candidate_ips (subnet_base (dotted_quad a b c d)))
       \<and> list_all (\<lambda>x. take 3 (py_split CHR ''.'' x) = [a, b, c])
           (candidate_ips (subnet_base (dotted_quad a b c d)))
       \<and> map last_octet (candidate_ips (subnet_base (dotted_quad a b c d))) = [1..<255]"
proof -
  have nd: "CHR ''.'' \<notin> set a" "CHR ''.'' \<notin> set b" "CHR ''.'' \<notin> set c" "CHR ''.'' \<notin> set d"
    using assms by (simp_all add: is_octet_no_dot)
  have base: "subnet_base (dotted_quad a b c d) = a @ ''.'' @ b @ ''.'' @ c @ ''.''"
    by (rule subnet_base_dotted_quad [OF nd])
  have cands: "candidate_ips (subnet_base (dotted_quad a b c d))
                 = map (\<lambda>i. dotted_quad a b c (py_str i)) [1..<255]"
    unfolding candidate_ips_def py_range_def base
    by (simp add: dotted_quad_def del: upt_rec_numeral)
  have fields: "py_split CHR ''.'' (dotted_quad a b c (py_str i)) = [a, b, c, py_str i]" for i
    by (rule py_split_dotted_quad [OF nd(1) nd(2) nd(3) py_str_no_dot])
  have "map last_octet (map (\<lambda>i. dotted_quad a b c (py_str i)) [1..<255]) = map (\<lambda>i. i) [1..<255]"
    unfolding map_map by (rule map_cong [OF refl]) (simp add: last_octet_def fields dec_value_py_str)
  then have octs: "map last_octet (candidate_ips (subnet_base (dotted_quad a b c d))) = [1..<255]"
    by (simp add: cands)
  have shared: "list_all (\<lambda>x. take 3 (py_split CHR ''.'' x) = [a, b, c])
                  (candidate_ips (subnet_base (dotted_quad a b c d)))"
    unfolding cands by (simp add: list_all_iff fields del: upt_rec_numeral)
  have "derive_candidates (dotted_quad a b c d)
          = Inr (map (\<lambda>i. dotted_quad a b c (py_str i)) [1..<255])"
    by (simp only: derive_candidates_def cands)
  with octs shared show ?thesis
    using length_candidate_ips distinct_candidate_ips by blast
qed

text \<open>The theorem at the address 192.168.1.10.\<close>

lemma is_octet_samples: "is_octet ''192''" "is_octet ''168''" "is_octet ''1''" "is_octet ''10''"
  by (simp_all add: is_octet_def is_digit_def dec_value_def)

theorem candidates_of_valid_address_witness:
  "is_octet ''192'' \<and> is_octet ''168'' \<and> is_octet ''1'' \<and> is_octet ''10''
   \<and> derive_candidates ''192.168.1.10'' = Inr (map (\<lambda>i. ''192.168.1.'' @ py_str i) [1..<255])
   \<and> length (candidate_ips (subnet_base ''192.168.1.10'')) = 254
   \<and> distinct (candidate_ips (subnet_base ''192.168.1.10''))
   \<and> map last_octet (candidate_ips (subnet_base ''192.168.1.10'')) = [1..<255]"
  using candidates_of_valid_address [OF is_octet_samples] is_octet_samples
  by (simp add: dotted_quad_def del: upt_rec_numeral)

section \<open>Inputs that are not addresses\<close>



lemma candidate_ips_take2: "take 2 (candidate_ips base) = [base @ ''1'', base @ ''2'']"
  by (simp add: candidate_ips_def py_range_def take_map py_str.simps digit_char_def del: upt_rec_numeral)

text \<open>
  Claim C10. The derivation is total: for every string it returns a list of 254
  candidates and raises nothing, also for strings that are no addresses. The base is
  the first up to three dot-separated fields of the input joined again, where the
  fields are the dot-free strings whose join is the input.
\<close>

theorem derivation_total:
  "derive_candidates s
     = Inr (map (\<lambda>i. py_join ''.'' (take 3 (py_split CHR ''.'' s)) @ ''.'' @ py_str i) [1..<255])
   \<and> (\<exists>cs. derive_candidates s = Inr cs \<and> length cs = 254)
   \<and> py_join ''.'' (py_split CHR ''.'' s) = s
   \<and> list_all (\<lambda>f. CHR ''.'' \<notin> set f) (py_split CHR ''.'' s)"
proof -
  have "derive_candidates s
          = Inr (map (\<lambda>i. py_join ''.'' (take 3 (py_split CHR ''.'' s)) @ ''.'' @ py_str i) [1..<255])"
    unfolding derive_candidates_def candidate_ips_def subnet_base_def py_range_def
    by (simp del: upt_rec_numeral)
  moreover have "\<exists>cs. derive_candidates s = Inr cs \<and> length cs = 254"
    by (simp add: derive_candidates_def length_candidate_ips)
  ultimately show ?thesis
    using py_join_split [of "CHR ''.''" s] py_split_fields_no_sep [of "CHR ''.''" s] by simp
qed

text \<open>The theorem at the malformed inputs \<open>abc\<close> and \<open>1.2.3\<close>.\<close>

theorem derivation_total_samples:
  "derive_candidates ''abc'' = Inr (map (\<lambda>i. ''abc.'' @ py_str i) [1..<255])
   \<and> derive_candidates ''1.2.3'' = Inr (map (\<lambda>i. ''1.2.3.'' @ py_str i) [1..<255])"
proof -
  have "py_split CHR ''.'' ''abc'' = [''abc'']" "py_split CHR ''.'' ''1.2.3'' = [''1'', ''2'', ''3'']"
    by simp_all
  then show ?thesis
    using derivation_total [of "''abc''"] derivation_total [of "''1.2.3''"]
    by (simp del: upt_rec_numeral)
qed




section \<open>The probe\<close>

text \<open>
  Claim C3. For every address and flag, and whatever happens to the probe process,
  \<open>ping_ip\<close> returns a truth value and raises nothing. When the launch of the process
  raises, or waiting for it raises, the result is false. When the process exits, the
  result is whether its exit status is 0, whatever it wrote to its output streams; an
  unreachable host and a timed out probe are exits of \<^verbatim>\<open>ping\<close> with another
  status.
\<close>

theorem ping_ip_never_raises:
  "(\<exists>alive. ping_ip run addr param = Inr alive)
   \<and> ping_ip (run(ping_argv param addr := LaunchFails e)) addr param = Inr False
   \<and> ping_ip (run(ping_argv param addr := WaitFails e)) addr param = Inr False
   \<and> ping_ip (run(ping_argv param addr := Exited returncode out err)) addr param
       = Inr (returncode = 0)"
  by (cases "run (ping_argv param addr)") (auto simp: ping_ip_def ping_ip_try_def)

section \<open>Gathering the probes\<close>

lemma ping_ip_responds: "ping_ip (spawn w) addr (ping_param w) = Inr (responds w addr)"
  by (simp add: ping_ip_def ping_ip_try_def responds_def split: proc_outcome.splits)

text \<open>
  When no task raises, the slots hold the results of the tasks that have completed.
\<close>

lemma gather_fill_results:
  "length slots = length bs \<Longrightarrow>
   gather_fill (map Inr bs) slots order
     = Inr (map (\<lambda>k. if k \<in> set order then Some (bs ! k) else slots ! k) [0..<length bs])"
proof (induction order arbitrary: slots)
  case Nil
  then have "map ((!) slots) [0..<length bs] = slots"
    by (metis map_nth)
  then show ?case by simp
next
  case (Cons k ks)
  show ?case
  proof (cases "k < length bs")
    case True
    have "gather_fill (map Inr bs) (slots[k := Some (bs ! k)]) ks
            = Inr (map (\<lambda>j. if j \<in> set ks then Some (bs ! j) else slots[k := Some (bs ! k)] ! j)
                    [0..<length bs])"
      using Cons.prems by (intro Cons.IH) simp
    also have "map (\<lambda>j. if j \<in> set ks then Some (bs ! j) else slots[k := Some (bs ! k)] ! j)
                 [0..<length bs]
             = map (\<lambda>j. if j \<in> set (k # ks) then Some (bs ! j) else slots ! j) [0..<length bs]"
      using Cons.prems True by (intro map_cong refl) (auto simp: nth_list_update)
    finally show ?thesis using True by simp
  next
    case False
    have "gather_fill (map Inr bs) slots ks
            = Inr (map (\<lambda>j. if j \<in> set ks then Some (bs ! j) else slots ! j) [0..<length bs])"
      by (rule Cons.IH [OF Cons.prems])
    also have "map (\<lambda>j. if j \<in> set ks then Some (bs ! j) else slots ! j) [0..<length bs]
             = map (\<lambda>j. if j \<in> set (k # ks) then Some (bs ! j) else slots ! j) [0..<length bs]"
      using False by (intro map_cong refl) auto
    finally show ?thesis using False by simp
  qed
qed

text \<open>
  So the call returns exactly when every task completes, and then it returns the
  results in the order of the tasks, whatever the order of completion.
\<close>

lemma gather_all_results:
  "gather order (map Inr bs)
     = (if list_all (\<lambda>k. k \<in> set order) [0..<length bs] then Some (Inr bs) else None)"
proof (cases "list_all (\<lambda>k. k \<in> set order) [0..<length bs]")
  case True
  then have "map (\<lambda>k. if k \<in> set order then Some (bs ! k) else replicate (length bs) None ! k)
               [0..<length bs] = map (\<lambda>k. Some (bs ! k)) [0..<length bs]"
    by (intro map_cong refl) (auto simp: list_all_iff)
  then have fill: "gather_fill (map Inr bs) (replicate (length bs) None) order
                     = Inr (map (\<lambda>k. Some (bs ! k)) [0..<length bs])"
    by (simp add: gather_fill_results)
  have "map the (map (\<lambda>k. Some (bs ! k)) [0..<length bs]) = bs"
    by (simp add: comp_def map_nth)
  then show ?thesis
    using True by (simp add: gather_def fill list_all_iff)
next
  case False
  then obtain k where k: "k < length bs" "k \<notin> set order"
    by (auto simp: list_all_iff)
  have fill: "gather_fill (map Inr bs) (replicate (length bs) None) order
                = Inr (map (\<lambda>k. if k \<in> set order then Some (bs ! k) else replicate (length bs) None ! k)
                        [0..<length bs])"
    by (simp add: gather_fill_results)
  have "\<not> list_all (\<lambda>s. s \<noteq> None)
          (map (\<lambda>k. if k \<in> set order then Some (bs ! k) else replicate (length bs) None ! k)
            [0..<length bs])"
    using k by (auto simp: list_all_iff intro!: bexI [of _ k])
  then show ?thesis
    using False by (simp add: gather_def fill)
qed

section \<open>The coroutine and the view function\<close>

text \<open>The loop over the responses appends the devices of the true responses, in order.\<close>

lemma collect_alive_devices:
  "collect_alive base ps res
     = res\<lparr>devices := devices res
         @ map (\<lambda>p. \<lparr>ip = base @ py_str (fst p), status = ''alive''\<rparr>) (filter snd ps)\<rparr>"
  by (induction base ps res rule: collect_alive.induct) auto

lemma enumerate_map_upt: "enumerate n (map f [n..<m]) = map (\<lambda>i. (i, f i)) [n..<m]"
  by (cases "n \<le> m") (simp_all add: enumerate_eq_zip zip_map2 zip_same_conv_map)

lemma alive_of_responses:
  "map (\<lambda>p. \<lparr>ip = base @ py_str (fst p), status = ''alive''\<rparr>)
     (filter snd (enumerate (Suc 0) (map g (candidate_ips base))))
   = map (\<lambda>addr. \<lparr>ip = addr, status = ''alive''\<rparr>) (filter g (candidate_ips base))"
proof -
  have "enumerate (Suc 0) (map g (candidate_ips base))
          = map (\<lambda>i. (i, g (base @ py_str i))) [1..<255]"
    unfolding candidate_ips_def py_range_def map_map
    using enumerate_map_upt [of 1 "g \<circ> (\<lambda>i. base @ py_str i)" 255]
    by (simp add: comp_def del: upt_rec_numeral)
  then show ?thesis
    unfolding candidate_ips_def py_range_def
    by (simp add: filter_map comp_def del: upt_rec_numeral)
qed

text \<open>
  The coroutine returns exactly when every probe completes, and then the devices it
  adds are the candidates that respond, in the order of the candidates.
\<close>

lemma run_scan_result:
  "run_scan w base (ping_param w) res fx
     = (if all_probes_complete w
        then Some (Inr (res\<lparr>devices := devices res
                      @ map (\<lambda>addr. \<lparr>ip = addr, status = ''alive''\<rparr>)
                          (filter (responds w) (candidate_ips base))\<rparr>),
                   fx\<lparr>probed := probed fx @ map (ping_argv (ping_param w)) (candidate_ips base)\<rparr>)
        else None)"
proof -
  have tasks: "map (\<lambda>addr. ping_ip (spawn w) addr (ping_param w)) (candidate_ips base)
                 = map Inr (map (responds w) (candidate_ips base))"
    by (simp add: ping_ip_responds)
  have "gather (completion_order w) (map Inr (map (responds w) (candidate_ips base)))
          = (if all_probes_complete w then Some (Inr (map (responds w) (candidate_ips base)))
             else None)"
    unfolding gather_all_results by (simp add: length_candidate_ips all_probes_complete_def)
  then show ?thesis
    unfolding run_scan_def Let_def tasks
    by (simp add: collect_alive_devices alive_of_responses)
qed

text \<open>What the view function returns when an event loop runs the coroutine.\<close>

lemma scan_network_runs:
  assumes "loop_runs w"
  shows "scan_network w
           = (if all_probes_complete w
              then Some (finish_scan w
                     \<lparr>local_ip = resolve_local_ip w, devices = alive_devices w, timestamp = None\<rparr>
                     (no_effects\<lparr>probed := map (ping_argv (ping_param w))
                        (candidate_ips (subnet_base (resolve_local_ip w)))\<rparr>))
              else None)"
proof (cases "asyncio_run w")
  case None
  then show ?thesis
    by (simp add: scan_network_def Let_def run_scan_result alive_devices_def no_effects_def)
next
  case (Some e)
  with assms obtain m where e: "e = RuntimeError m" and fb: "run_until_complete w = None"
    by (cases e) (auto simp: loop_runs_def)
  show ?thesis
    using Some e fb
    by (simp add: scan_network_def Let_def run_scan_result alive_devices_def no_effects_def)
qed

text \<open>What it returns when none does.\<close>

lemma scan_network_fails:
  assumes "\<not> loop_runs w"
  shows "(\<exists>m. asyncio_run w = Some (OtherException m)
            \<and> scan_network w
                = Some (Error500 m, no_effects\<lparr>logged := [''Ping scan failed: '' @ m]\<rparr>))
       \<or> (\<exists>m e. asyncio_run w = Some (RuntimeError m) \<and> run_until_complete w = Some e
            \<and> scan_network w = Some (Uncaught e, no_effects))"
proof (cases "asyncio_run w")
  case None
  with assms show ?thesis by (simp add: loop_runs_def)
next
  case (Some e)
  show ?thesis
  proof (cases e)
    case (RuntimeError m)
    with assms Some obtain e' where "run_until_complete w = Some e'"
      by (auto simp: loop_runs_def)
    with Some RuntimeError show ?thesis
      by (simp add: scan_network_def Let_def)
  next
    case (OtherException m)
    with Some show ?thesis
      by (simp add: scan_network_def Let_def no_effects_def)
  qed
qed

text \<open>The saving loop tries the rows of the devices up to the first insert that raises.\<close>

lemma save_devices_effects:
  "snd (save_devices w ds fx)
     = fx\<lparr>attempted := attempted fx
             @ through_first (\<lambda>row. insert_scan w row \<noteq> None) (rows_for w (clock_reads fx) ds),
           clock_reads := clock_reads fx
             + length (through_first (\<lambda>row. insert_scan w row \<noteq> None)
                 (rows_for w (clock_reads fx) ds))\<rparr>"
proof (induction ds arbitrary: fx)
  case Nil
  then show ?case by simp
next
  case (Cons d ds)
  show ?case
    by (cases "insert_scan w \<lparr>row_ip = ip d, row_status = status d,
                 row_scanned_at = utcnow w (clock_reads fx)\<rparr>")
       (simp_all add: Let_def Cons.IH)
qed

lemma finish_scan_result:
  "\<exists>fx'. finish_scan w res fx
     = (Ok200 (res\<lparr>timestamp := Some (utcnow w (clock_reads fx
            + length (through_first (\<lambda>row. insert_scan w row \<noteq> None)
                (rows_for w (clock_reads fx) (devices res)))))\<rparr>), fx')
     \<and> probed fx' = probed fx
     \<and> attempted fx' = attempted fx
          @ through_first (\<lambda>row. insert_scan w row \<noteq> None)
              (rows_for w (clock_reads fx) (devices res))"
proof -
  obtain failure fx1 where s: "save_devices w (devices res) fx = (failure, fx1)"
    by (cases "save_devices w (devices res) fx")
  then have fx1: "fx1 = snd (save_devices w (devices res) fx)" by simp
  show ?thesis
    unfolding finish_scan_def Let_def s
    by (cases failure) (simp_all add: fx1 save_devices_effects)
qed

text \<open>
  The loop ends with the exception of the first insert that raises; that exception is
  logged, once, and the clock is read once more for the time stamp.
\<close>

lemma save_devices_failure:
  "fst (save_devices w ds fx)
     = first_failure (insert_scan w) (rows_for w (clock_reads fx) ds)"
proof (induction ds arbitrary: fx)
  case Nil
  then show ?case by simp
next
  case (Cons d ds)
  show ?case
    by (cases "insert_scan w \<lparr>row_ip = ip d, row_status = status d,
                 row_scanned_at = utcnow w (clock_reads fx)\<rparr>")
       (simp_all add: Let_def Cons.IH)
qed

lemma finish_scan_logged:
  "logged (snd (finish_scan w res fx))
     = logged fx
       @ (case first_failure (insert_scan w) (rows_for w (clock_reads fx) (devices res)) of
            None \<Rightarrow> []
          | Some e \<Rightarrow> [''Supabase save_scan_to_supabase error: '' @ exc_str e])"
  "clock_reads (snd (finish_scan w res fx))
     = Suc (clock_reads fx
         + length (through_first (\<lambda>row. insert_scan w row \<noteq> None)
             (rows_for w (clock_reads fx) (devices res))))"
proof -
  obtain failure fx1 where s: "save_devices w (devices res) fx = (failure, fx1)"
    by (cases "save_devices w (devices res) fx")
  then have fx1: "fx1 = snd (save_devices w (devices res) fx)"
    by simp
  have ff: "first_failure (insert_scan w) (rows_for w (clock_reads fx) (devices res)) = failure"
    using s save_devices_failure [of w "devices res" fx] by simp
  show "logged (snd (finish_scan w res fx))
     = logged fx
       @ (case first_failure (insert_scan w) (rows_for w (clock_reads fx) (devices res)) of
            None \<Rightarrow> []
          | Some e \<Rightarrow> [''Supabase save_scan_to_supabase error: '' @ exc_str e])"
    unfolding finish_scan_def Let_def s ff
    by (cases failure) (simp_all add: fx1 save_devices_effects)
  show "clock_reads (snd (finish_scan w res fx))
     = Suc (clock_reads fx
         + length (through_first (\<lambda>row. insert_scan w row \<noteq> None)
             (rows_for w (clock_reads fx) (devices res))))"
    unfolding finish_scan_def Let_def s
    by (cases failure) (simp_all add: fx1 save_devices_effects)
qed

section \<open>The devices of a report\<close>

text \<open>Splitting distributes over a separator, so a candidate ends in its counter.\<close>

lemma py_split_append:
  "py_split sep (s @ sep # t) = py_split sep s @ py_split sep t"
proof (induction s)
  case Nil
  then show ?case by simp
next
  case (Cons c s)
  then show ?case
    by (cases "py_split sep s") (auto simp: py_split_nonempty)
qed

lemma subnet_base_ends_with_dot: "\<exists>pre. subnet_base s = pre @ ''.''"
  by (simp add: subnet_base_def)

lemma last_octet_candidate: "last_octet (subnet_base s @ py_str i) = i"
proof -
  obtain pre where pre: "subnet_base s = pre @ ''.''"
    using subnet_base_ends_with_dot by blast
  have "py_split CHR ''.'' (pre @ CHR ''.'' # py_str i)
          = py_split CHR ''.'' pre @ [py_str i]"
    by (simp add: py_split_append py_split_single py_str_no_dot)
  then show ?thesis
    by (simp add: last_octet_def pre dec_value_py_str)
qed

text \<open>
  The devices that respond keep the order of the candidates: their last octets are
  the counters 1 to 254 that respond, in ascending order.
\<close>

lemma alive_devices_octets:
  "map (last_octet \<circ> ip) (alive_devices w)
     = filter (\<lambda>i. responds w (subnet_base (resolve_local_ip w) @ py_str i)) [1..<255]"
  unfolding alive_devices_def candidate_ips_def py_range_def
  by (simp add: filter_map comp_def last_octet_candidate del: upt_rec_numeral)

lemma alive_devices_sorted: "sorted_wrt (<) (map (last_octet \<circ> ip) (alive_devices w))"
  unfolding alive_devices_octets
  by (rule sorted_wrt_filter) (simp del: upt_rec_numeral)

lemma alive_devices_ips:
  "map ip (alive_devices w)
     = filter (responds w) (candidate_ips (subnet_base (resolve_local_ip w)))"
  by (simp add: alive_devices_def comp_def)

lemma alive_devices_status: "list_all (\<lambda>d. status d = ''alive'') (alive_devices w)"
  by (simp add: alive_devices_def list_all_iff)

lemma alive_devices_bounds:
  "length (alive_devices w) \<le> 254 \<and> distinct (map ip (alive_devices w))
   \<and> set (map ip (alive_devices w)) \<subseteq> set (candidate_ips (subnet_base (resolve_local_ip w)))"
proof -
  have "length (alive_devices w)
          \<le> length (candidate_ips (subnet_base (resolve_local_ip w)))"
    by (simp add: alive_devices_def)
  then show ?thesis
    unfolding alive_devices_ips by (auto simp: length_candidate_ips distinct_candidate_ips)
qed

text \<open>A report is returned only when a loop runs and every probe completes.\<close>

lemma scan_ok_report:
  assumes "scan_network w = Some (Ok200 r, fx)"
  shows "loop_runs w \<and> all_probes_complete w
       \<and> local_ip r = resolve_local_ip w \<and> devices r = alive_devices w
       \<and> probed fx = map (ping_argv (ping_param w))
                        (candidate_ips (subnet_base (resolve_local_ip w)))
       \<and> attempted fx = through_first (\<lambda>row. insert_scan w row \<noteq> None)
                           (rows_for w 0 (alive_devices w))
       \<and> timestamp r = Some (utcnow w (length (attempted fx)))"
proof -
  have runs: "loop_runs w"
    using assms scan_network_fails [of w] by (cases "loop_runs w") auto
  have comp: "all_probes_complete w"
    using assms scan_network_runs [OF runs] by (cases "all_probes_complete w") auto
  let ?res = "\<lparr>local_ip = resolve_local_ip w, devices = alive_devices w, timestamp = None\<rparr>"
  let ?fx = "no_effects\<lparr>probed := map (ping_argv (ping_param w))
                          (candidate_ips (subnet_base (resolve_local_ip w)))\<rparr>"
  have fin: "finish_scan w ?res ?fx = (Ok200 r, fx)"
    using assms scan_network_runs [OF runs] comp by simp
  from finish_scan_result [of w ?res ?fx] fin show ?thesis
    using runs comp by (auto simp: no_effects_def)
qed

text \<open>And then one is returned.\<close>

lemma scan_ok_exists:
  assumes "loop_runs w" "all_probes_complete w"
  shows "\<exists>ts fx. scan_network w
           = Some (Ok200 \<lparr>local_ip = resolve_local_ip w, devices = alive_devices w,
                          timestamp = Some ts\<rparr>, fx)"
proof -
  let ?res = "\<lparr>local_ip = resolve_local_ip w, devices = alive_devices w, timestamp = None\<rparr>"
  let ?fx = "no_effects\<lparr>probed := map (ping_argv (ping_param w))
                          (candidate_ips (subnet_base (resolve_local_ip w)))\<rparr>"
  from finish_scan_result [of w ?res ?fx] obtain fx' ts
    where "finish_scan w ?res ?fx = (Ok200 (?res\<lparr>timestamp := Some ts\<rparr>), fx')"
    by blast
  then show ?thesis
    using scan_network_runs [OF assms(1)] assms(2) by simp
qed

text \<open>What a call that returns a report has logged, and how often it read the clock.\<close>

lemma scan_ok_logged:
  assumes "scan_network w = Some (Ok200 r, fx)"
  shows "logged fx
           = (case first_failure (insert_scan w) (rows_for w 0 (alive_devices w)) of
                None \<Rightarrow> []
              | Some e \<Rightarrow> [''Supabase save_scan_to_supabase error: '' @ exc_str e])
       \<and> clock_reads fx = Suc (length (attempted fx))"
proof -
  note ok = scan_ok_report [OF assms]
  let ?res = "\<lparr>local_ip = resolve_local_ip w, devices = alive_devices w, timestamp = None\<rparr>"
  let ?fx = "no_effects\<lparr>probed := map (ping_argv (ping_param w))
                          (candidate_ips (subnet_base (resolve_local_ip w)))\<rparr>"
  have "finish_scan w ?res ?fx = (Ok200 r, fx)"
    using assms scan_network_runs [of w] ok by simp
  then have "fx = snd (finish_scan w ?res ?fx)" by simp
  then show ?thesis
    using ok by (simp add: finish_scan_logged no_effects_def)
qed

section \<open>Every outcome of a scan\<close>

text \<open>
  The response without its time stamp, and the probes asked for, in every case: a
  report of all responding candidates, no return while a probe is pending, status 500,
  or the exception of the fallback loop.
\<close>

lemma scan_shape:
  "map_option (\<lambda>(resp, fx). (unstamped resp, probed fx)) (scan_network w)
     = (if loop_runs w
        then (if all_probes_complete w
              then Some (Ok200 \<lparr>local_ip = resolve_local_ip w, devices = alive_devices w,
                                timestamp = None\<rparr>,
                         map (ping_argv (ping_param w))
                           (candidate_ips (subnet_base (resolve_local_ip w))))
              else None)
        else (case asyncio_run w of
                None \<Rightarrow> None
              | Some (RuntimeError m) \<Rightarrow>
                  (case run_until_complete w of
                     None \<Rightarrow> None
                   | Some e \<Rightarrow> Some (Uncaught e, []))
              | Some (OtherException m) \<Rightarrow> Some (Error500 m, [])))"
proof (cases "loop_runs w")
  case True
  show ?thesis
  proof (cases "all_probes_complete w")
    case True
    from scan_ok_exists [OF \<open>loop_runs w\<close> True] obtain ts fx
      where s: "scan_network w
                  = Some (Ok200 \<lparr>local_ip = resolve_local_ip w, devices = alive_devices w,
                                 timestamp = Some ts\<rparr>, fx)"
      by blast
    from scan_ok_report [OF s] show ?thesis
      using \<open>loop_runs w\<close> True by (simp add: s)
  next
    case False
    with True show ?thesis by (simp add: scan_network_runs)
  qed
next
  case False
  from scan_network_fails [OF False] show ?thesis
    using False by (auto simp: no_effects_def)
qed

text \<open>
  Neither the store nor the order of completion nor the clock enters what the scan
  resolves, asks for and finds alive.
\<close>

lemma frame_insert_scan:
  "resolve_local_ip (w\<lparr>insert_scan := sink\<rparr>) = resolve_local_ip w"
  "ping_param (w\<lparr>insert_scan := sink\<rparr>) = ping_param w"
  "loop_runs (w\<lparr>insert_scan := sink\<rparr>) = loop_runs w"
  "all_probes_complete (w\<lparr>insert_scan := sink\<rparr>) = all_probes_complete w"
  "alive_devices (w\<lparr>insert_scan := sink\<rparr>) = alive_devices w"
  by (simp_all add: resolve_local_ip_def ping_param_def loop_runs_def all_probes_complete_def
        alive_devices_def responds_def [abs_def] split: option.splits py_exception.splits)

lemma frame_schedule:
  "resolve_local_ip (w\<lparr>completion_order := order', insert_scan := sink, utcnow := clock\<rparr>)
     = resolve_local_ip w"
  "alive_devices (w\<lparr>completion_order := order', insert_scan := sink, utcnow := clock\<rparr>)
     = alive_devices w"
  by (simp_all add: resolve_local_ip_def ping_param_def alive_devices_def responds_def [abs_def])

text \<open>
  The resolver enters the scan only through the address it gives.
\<close>

lemma save_devices_frame:
  "save_devices (w\<lparr>gethostbyname := g\<rparr>) ds fx = save_devices w ds fx"
  by (induction ds arbitrary: fx) (simp_all add: Let_def split: option.splits)

lemma scan_network_frame:
  assumes "resolve_local_ip (w\<lparr>gethostbyname := g\<rparr>) = resolve_local_ip w"
  shows "scan_network (w\<lparr>gethostbyname := g\<rparr>) = scan_network w"
proof -
  have fin: "finish_scan (w\<lparr>gethostbyname := g\<rparr>) res fx = finish_scan w res fx" for res fx
    by (simp add: finish_scan_def save_devices_frame)
  have run: "run_scan (w\<lparr>gethostbyname := g\<rparr>) base param res fx = run_scan w base param res fx"
    for base param res fx
    by (simp add: run_scan_def)
  have exc: "scan_except (w\<lparr>gethostbyname := g\<rparr>) base param res fx e
               = scan_except w base param res fx e" for base param res fx e
    by (cases e) (simp_all add: run fin split: option.splits sum.splits prod.splits)
  have par: "ping_param (w\<lparr>gethostbyname := g\<rparr>) = ping_param w"
    by (simp add: ping_param_def)
  show ?thesis
    by (simp add: scan_network_def assms par run fin exc Let_def
          split: option.splits sum.splits prod.splits)
qed

section \<open>The sample scans evaluated\<close>

text \<open>
  Decimal numerals of the counters and clock readings that occur below.
\<close>

lemma py_str_samples:
  "py_str 0 = ''0''" "py_str 1 = ''1''" "py_str 2 = ''2''" "py_str 3 = ''3''"
  "py_str 50 = ''50''" "py_str 254 = ''254''"
  "py_str (Suc 0) = ''1''" "py_str (Suc (Suc 0)) = ''2''" "py_str (Suc (Suc (Suc 0))) = ''3''"
  by (simp_all add: py_str.simps digit_char_def)

lemma not_windows: "py_lower ''Linux'' \<noteq> ''windows''"
proof
  assume "py_lower ''Linux'' = ''windows''"
  then have "length (py_lower ''Linux'') = length ''windows''" by (rule arg_cong)
  then show False by (simp add: py_lower_def)
qed

lemma sample_env_reads:
  "resolve_local_ip sample_env = ''192.168.1.10''"
  "ping_param sample_env = ''-c''"
  "loop_runs sample_env"
  "all_probes_complete sample_env"
  by (simp_all add: resolve_local_ip_def ping_param_def loop_runs_def all_probes_complete_def
        sample_env_def not_windows list_all_iff del: upt_rec_numeral)

lemma subnet_base_sample: "subnet_base ''192.168.1.10'' = ''192.168.1.''"
  by (simp add: subnet_base_def)

text \<open>
  On the sample subnet exactly the counters 1, 50 and 254 give an address that answers.
\<close>

lemma sample_responds:
  "responds sample_env (''192.168.1.'' @ py_str i) = (i = 1 \<or> i = 50 \<or> i = 254)"
proof -
  have sp: "spawn sample_env = sample_spawn"
    by (simp add: sample_env_def)
  have r: "responds sample_env a
             = (a = ''192.168.1.1'' \<or> a = ''192.168.1.50'' \<or> a = ''192.168.1.254'')" for a
    by (simp add: responds_def sp sample_spawn_def ping_argv_def)
  have "(py_str i = ''1'') = (i = 1)" "(py_str i = ''50'') = (i = 50)"
       "(py_str i = ''254'') = (i = 254)"
    using py_str_inj [of i 1] py_str_inj [of i 50] py_str_inj [of i 254]
    by (auto simp: py_str_samples)
  then show ?thesis
    by (simp add: r)
qed

lemma filter_three: "filter (\<lambda>i. i = 1 \<or> i = 50 \<or> i = 254) [1..<255] = [1, 50, 254::nat]"
  by code_simp

lemma alive_devices_sample: "alive_devices sample_env = sample_devices"
proof -
  have "filter (responds sample_env) (candidate_ips ''192.168.1.'')
          = map (\<lambda>i. ''192.168.1.'' @ py_str i) (filter (\<lambda>i. i = 1 \<or> i = 50 \<or> i = 254) [1..<255])"
    unfolding candidate_ips_def py_range_def filter_map
    by (simp only: comp_def sample_responds)
  then show ?thesis
    unfolding alive_devices_def sample_env_reads subnet_base_sample
    by (simp only: filter_three) (simp add: sample_devices_def py_str_samples)
qed

text \<open>
  The scan of any host that sees the sample subnet, with a working store and with one
  that raises.
\<close>

lemma scan_of_sample_subnet:
  assumes "loop_runs w" and "all_probes_complete w"
    and "resolve_local_ip w = ''192.168.1.10''" and "ping_param w = ''-c''"
    and "alive_devices w = sample_devices"
  shows "scan_network w
           = Some (finish_scan w
                     \<lparr>local_ip = ''192.168.1.10'', devices = sample_devices, timestamp = None\<rparr>
                     (no_effects\<lparr>probed := sample_probes\<rparr>))"
  using scan_network_runs [OF assms(1)] assms(2-5)
  by (simp add: subnet_base_sample sample_probes_def)

lemma working_store_scan:
  assumes "loop_runs w" and "all_probes_complete w"
    and "resolve_local_ip w = ''192.168.1.10''" and "ping_param w = ''-c''"
    and "alive_devices w = sample_devices"
    and "insert_scan w = (\<lambda>row. None)" and "utcnow w = (\<lambda>n. CHR ''t'' # py_str n)"
  shows "scan_network w
           = Some (Ok200 (sample_report ''t3''),
                   \<lparr>probed = sample_probes,
                    attempted =
                      [\<lparr>row_ip = ''192.168.1.1'', row_status = ''alive'', row_scanned_at = ''t0''\<rparr>,
                       \<lparr>row_ip = ''192.168.1.50'', row_status = ''alive'', row_scanned_at = ''t1''\<rparr>,
                       \<lparr>row_ip = ''192.168.1.254'', row_status = ''alive'', row_scanned_at = ''t2''\<rparr>],
                    logged = [], clock_reads = 4\<rparr>)"
  unfolding scan_of_sample_subnet [OF assms(1-5)]
  by (simp add: finish_scan_def sample_devices_def sample_report_def no_effects_def
        assms(6,7) py_str_samples)

lemma failing_store_scan_gen:
  assumes "loop_runs w" and "all_probes_complete w"
    and "resolve_local_ip w = ''192.168.1.10''" and "ping_param w = ''-c''"
    and "alive_devices w = sample_devices"
    and "insert_scan w = (\<lambda>row. Some (OtherException ''store down''))"
    and "utcnow w = (\<lambda>n. CHR ''t'' # py_str n)"
  shows "scan_network w
           = Some (Ok200 (sample_report ''t1''),
                   \<lparr>probed = sample_probes,
                    attempted =
                      [\<lparr>row_ip = ''192.168.1.1'', row_status = ''alive'', row_scanned_at = ''t0''\<rparr>],
                    logged = [''Supabase save_scan_to_supabase error: store down''],
                    clock_reads = 2\<rparr>)"
  unfolding scan_of_sample_subnet [OF assms(1-5)]
  by (simp add: finish_scan_def sample_devices_def sample_report_def no_effects_def
        assms(6,7) py_str_samples)

lemma sample_env_store:
  "insert_scan sample_env = (\<lambda>row. None)" "utcnow sample_env = (\<lambda>n. CHR ''t'' # py_str n)"
  by (simp_all add: sample_env_def)

lemma sample_scan:
  "scan_network sample_env
     = Some (Ok200 (sample_report ''t3''),
             \<lparr>probed = sample_probes,
              attempted =
                [\<lparr>row_ip = ''192.168.1.1'', row_status = ''alive'', row_scanned_at = ''t0''\<rparr>,
                 \<lparr>row_ip = ''192.168.1.50'', row_status = ''alive'', row_scanned_at = ''t1''\<rparr>,
                 \<lparr>row_ip = ''192.168.1.254'', row_status = ''alive'', row_scanned_at = ''t2''\<rparr>],
              logged = [], clock_reads = 4\<rparr>)"
  by (rule working_store_scan) (simp_all add: sample_env_reads alive_devices_sample sample_env_store)

lemma reversed_env_reads:
  "loop_runs reversed_env" "all_probes_complete reversed_env"
  "resolve_local_ip reversed_env = ''192.168.1.10''" "ping_param reversed_env = ''-c''"
  "alive_devices reversed_env = sample_devices"
  "insert_scan reversed_env = (\<lambda>row. None)"
  "utcnow reversed_env = (\<lambda>n. CHR ''t'' # py_str n)"
proof -
  show "loop_runs reversed_env"
    by (simp add: loop_runs_def reversed_env_def sample_env_def)
  show "all_probes_complete reversed_env"
    by (simp add: all_probes_complete_def reversed_env_def list_all_iff del: upt_rec_numeral)
  show "resolve_local_ip reversed_env = ''192.168.1.10''"
    by (simp add: resolve_local_ip_def reversed_env_def sample_env_def)
  show "ping_param reversed_env = ''-c''"
    by (simp add: ping_param_def reversed_env_def sample_env_def not_windows)
  have "alive_devices reversed_env = alive_devices sample_env"
    by (simp add: alive_devices_def responds_def [abs_def] resolve_local_ip_def ping_param_def
          reversed_env_def)
  then show "alive_devices reversed_env = sample_devices"
    by (simp add: alive_devices_sample)
  show "insert_scan reversed_env = (\<lambda>row. None)"
    "utcnow reversed_env = (\<lambda>n. CHR ''t'' # py_str n)"
    by (simp_all add: reversed_env_def sample_env_def)
qed

lemma reversed_scan:
  "scan_network reversed_env
     = Some (Ok200 (sample_report ''t3''),
             \<lparr>probed = sample_probes,
              attempted =
                [\<lparr>row_ip = ''192.168.1.1'', row_status = ''alive'', row_scanned_at = ''t0''\<rparr>,
                 \<lparr>row_ip = ''192.168.1.50'', row_status = ''alive'', row_scanned_at = ''t1''\<rparr>,
                 \<lparr>row_ip = ''192.168.1.254'', row_status = ''alive'', row_scanned_at = ''t2''\<rparr>],
              logged = [], clock_reads = 4\<rparr>)"
  by (rule working_store_scan) (simp_all add: reversed_env_reads)

lemma failing_store_scan:
  "scan_network failing_store_env
     = Some (Ok200 (sample_report ''t1''),
             \<lparr>probed = sample_probes,
              attempted =
                [\<lparr>row_ip = ''192.168.1.1'', row_status = ''alive'', row_scanned_at = ''t0''\<rparr>],
              logged = [''Supabase save_scan_to_supabase error: store down''],
              clock_reads = 2\<rparr>)"
proof (rule failing_store_scan_gen)
  show "loop_runs failing_store_env" "all_probes_complete failing_store_env"
    "resolve_local_ip failing_store_env = ''192.168.1.10''"
    "ping_param failing_store_env = ''-c''"
    "alive_devices failing_store_env = sample_devices"
    unfolding failing_store_env_def
    by (simp_all only: frame_insert_scan sample_env_reads alive_devices_sample)
  show "insert_scan failing_store_env = (\<lambda>row. Some (OtherException ''store down''))"
    "utcnow failing_store_env = (\<lambda>n. CHR ''t'' # py_str n)"
    by (simp_all add: failing_store_env_def sample_env_def)
qed

text \<open>
  The host whose name does not resolve probes the loopback subnet, where nothing of the
  sample answers.
\<close>

lemma unresolved_env_reads:
  "gethostbyname unresolved_env (gethostname unresolved_env) = Inl (OtherException ''gaierror'')"
  "loop_runs unresolved_env" "all_probes_complete unresolved_env"
  "ping_param unresolved_env = ''-c''"
  "insert_scan unresolved_env = (\<lambda>row. None)"
  "utcnow unresolved_env = (\<lambda>n. CHR ''t'' # py_str n)"
  by (simp_all add: unresolved_env_def sample_env_def loop_runs_def all_probes_complete_def
        ping_param_def not_windows list_all_iff del: upt_rec_numeral)

lemma unresolved_alive: "alive_devices unresolved_env = []"
proof -
  have "resolve_local_ip unresolved_env = ''127.0.0.1''"
    by (simp add: resolve_local_ip_def unresolved_env_reads)
  moreover have "subnet_base ''127.0.0.1'' = ''127.0.0.''"
    by (simp add: subnet_base_def)
  moreover have "\<not> responds unresolved_env (''127.0.0.'' @ s)" for s
    by (simp add: responds_def unresolved_env_def sample_env_def sample_spawn_def ping_argv_def)
  ultimately show ?thesis
    by (auto simp: alive_devices_def candidate_ips_def filter_empty_conv)
qed

lemma unresolved_scan:
  "scan_network unresolved_env
     = Some (Ok200 \<lparr>local_ip = ''127.0.0.1'', devices = [], timestamp = Some ''t0''\<rparr>,
             \<lparr>probed = map (ping_argv ''-c'') (candidate_ips ''127.0.0.''),
              attempted = [], logged = [], clock_reads = 1\<rparr>)"
proof -
  have "resolve_local_ip unresolved_env = ''127.0.0.1''"
    by (simp add: resolve_local_ip_def unresolved_env_reads)
  moreover have "subnet_base ''127.0.0.1'' = ''127.0.0.''"
    by (simp add: subnet_base_def)
  ultimately show ?thesis
    using scan_network_runs [OF unresolved_env_reads(2)]
    by (simp add: unresolved_env_reads unresolved_alive finish_scan_def no_effects_def
          py_str_samples)
qed

text \<open>
  A pending probe, and the two ways the event loop can fail.
\<close>

lemma stuck_env_reads: "loop_runs stuck_env" "\<not> all_probes_complete stuck_env"
proof -
  show "loop_runs stuck_env"
    by (simp add: loop_runs_def stuck_env_def sample_env_def)
  have "7 \<in> set [0..<254::nat]" by (simp del: upt_rec_numeral)
  moreover have "7 \<notin> set (completion_order stuck_env)"
    by (simp add: stuck_env_def)
  ultimately show "\<not> all_probes_complete stuck_env"
    unfolding all_probes_complete_def list_all_iff by blast
qed

lemma stuck_scan: "scan_network stuck_env = None"
  using scan_network_runs [OF stuck_env_reads(1)] stuck_env_reads(2) by simp

lemma broken_loop_scan:
  "\<not> loop_runs broken_loop_env"
  "scan_network broken_loop_env
     = Some (Error500 ''no loop'',
             \<lparr>probed = [], attempted = [], logged = [''Ping scan failed: no loop''],
              clock_reads = 0\<rparr>)"
proof -
  show n: "\<not> loop_runs broken_loop_env"
    by (simp add: loop_runs_def broken_loop_env_def)
  have "asyncio_run broken_loop_env = Some (OtherException ''no loop'')"
    by (simp add: broken_loop_env_def)
  with scan_network_fails [OF n]
  show "scan_network broken_loop_env
     = Some (Error500 ''no loop'',
             \<lparr>probed = [], attempted = [], logged = [''Ping scan failed: no loop''],
              clock_reads = 0\<rparr>)"
    by (auto simp: no_effects_def)
qed

lemma nested_loop_scan:
  "\<not> loop_runs nested_loop_env"
  "scan_network nested_loop_env
     = Some (Uncaught (RuntimeError ''loop is already running''),
             \<lparr>probed = [], attempted = [], logged = [], clock_reads = 0\<rparr>)"
proof -
  show n: "\<not> loop_runs nested_loop_env"
    by (simp add: loop_runs_def nested_loop_env_def)
  have "asyncio_run nested_loop_env = Some (RuntimeError ''loop is running'')"
    "run_until_complete nested_loop_env = Some (RuntimeError ''loop is already running'')"
    by (simp_all add: nested_loop_env_def)
  with scan_network_fails [OF n]
  show "scan_network nested_loop_env
     = Some (Uncaught (RuntimeError ''loop is already running''),
             \<lparr>probed = [], attempted = [], logged = [], clock_reads = 0\<rparr>)"
    by (auto simp: no_effects_def)
qed

section \<open>Waiting for all probes\<close>

text \<open>
  Claim C2. The scan waits for all 254 probe outcomes and then returns a complete
  report, or it fails with a scan-level error when no event loop can run the probes;
  the caller never receives a partial report. Every call of \<^verbatim>\<open>scan_network\<close> is
  in exactly one of four cases. A loop runs the coroutine and every probe completes:
  the response is the report whose devices are all the responding candidates, after
  all 254 probes were asked for. A loop runs it and some probe never completes: the
  call does not return. \<^verbatim>\<open>asyncio.run\<close> raises an exception that is not a
  \<^verbatim>\<open>RuntimeError\<close>: the response is the error with status 500, and no probe was
  asked for. It raises \<^verbatim>\<open>RuntimeError\<close> and the fallback loop raises too: that
  exception leaves the view function, and no probe was asked for.
\<close>

theorem scan_complete_or_failed:
  "(loop_runs w \<and> all_probes_complete w
      \<and> (\<exists>ts fx. scan_network w
             = Some (Ok200 \<lparr>local_ip = resolve_local_ip w, devices = alive_devices w,
                            timestamp = Some ts\<rparr>, fx)
           \<and> length (probed fx) = 254
           \<and> probed fx = map (ping_argv (ping_param w))
                            (candidate_ips (subnet_base (resolve_local_ip w)))))
   \<or> (loop_runs w \<and> \<not> all_probes_complete w \<and> scan_network w = None)
   \<or> (\<not> loop_runs w
        \<and> (\<exists>m fx. asyncio_run w = Some (OtherException m)
              \<and> scan_network w = Some (Error500 m, fx) \<and> probed fx = []))
   \<or> (\<not> loop_runs w
        \<and> (\<exists>m e fx. asyncio_run w = Some (RuntimeError m) \<and> run_until_complete w = Some e
              \<and> scan_network w = Some (Uncaught e, fx) \<and> probed fx = []))"
proof (cases "loop_runs w")
  case runs: True
  show ?thesis
  proof (cases "all_probes_complete w")
    case True
    from scan_ok_exists [OF runs True] obtain ts fx
      where s: "scan_network w
                  = Some (Ok200 \<lparr>local_ip = resolve_local_ip w, devices = alive_devices w,
                                 timestamp = Some ts\<rparr>, fx)"
      by blast
    from scan_ok_report [OF s] have
      "probed fx = map (ping_argv (ping_param w))
                     (candidate_ips (subnet_base (resolve_local_ip w)))"
      by simp
    moreover from this have "length (probed fx) = 254"
      by (simp add: length_candidate_ips)
    ultimately show ?thesis
      using runs True s by blast
  next
    case False
    with runs show ?thesis by (simp add: scan_network_runs)
  qed
next
  case False
  from scan_network_fails [OF False] show ?thesis
    using False by (auto simp: no_effects_def)
qed

text \<open>
  The four cases on the sample host: all probes complete, probe 7 pending, and the two
  failures of the event loop.
\<close>

theorem scan_complete_or_failed_witness:
  "(loop_runs sample_env \<and> all_probes_complete sample_env
      \<and> scan_network sample_env
          = Some (Ok200 (sample_report ''t3''),
                  \<lparr>probed = sample_probes,
                   attempted =
                     [\<lparr>row_ip = ''192.168.1.1'', row_status = ''alive'', row_scanned_at = ''t0''\<rparr>,
                      \<lparr>row_ip = ''192.168.1.50'', row_status = ''alive'', row_scanned_at = ''t1''\<rparr>,
                      \<lparr>row_ip = ''192.168.1.254'', row_status = ''alive'', row_scanned_at = ''t2''\<rparr>],
                   logged = [], clock_reads = 4\<rparr>)
      \<and> length sample_probes = 254)
   \<and> (loop_runs stuck_env \<and> \<not> all_probes_complete stuck_env \<and> scan_network stuck_env = None)
   \<and> (\<not> loop_runs broken_loop_env
        \<and> scan_network broken_loop_env
            = Some (Error500 ''no loop'',
                    \<lparr>probed = [], attempted = [], logged = [''Ping scan failed: no loop''],
                     clock_reads = 0\<rparr>))
   \<and> (\<not> loop_runs nested_loop_env
        \<and> scan_network nested_loop_env
            = Some (Uncaught (RuntimeError ''loop is already running''),
                    \<lparr>probed = [], attempted = [], logged = [], clock_reads = 0\<rparr>))"
  using scan_complete_or_failed [of sample_env] scan_complete_or_failed [of stuck_env]
    scan_complete_or_failed [of broken_loop_env] scan_complete_or_failed [of nested_loop_env]
  by (simp add: sample_env_reads sample_scan stuck_env_reads stuck_scan broken_loop_scan
        nested_loop_scan)

section \<open>The order of the devices\<close>

text \<open>
  Claim C4. For a fixed probe function the devices of the returned report are in
  ascending order of the last octet, and they are the same in every repeated scan,
  whatever the order in which the probes complete. Two scans of one host that return a
  report, the second with any other completion order (and any other store and clock),
  list the same devices: the responding candidates in candidate order.
\<close>

theorem devices_order_deterministic:
  assumes "scan_network w = Some (Ok200 r, fx)"
    and "scan_network (w\<lparr>completion_order := order', insert_scan := sink, utcnow := clock\<rparr>)
           = Some (Ok200 r', fx')"
  shows "devices r' = devices r
       \<and> sorted_wrt (<) (map (last_octet \<circ> ip) (devices r))
       \<and> map ip (devices r)
           = filter (responds w) (candidate_ips (subnet_base (local_ip r)))"
  using scan_ok_report [OF assms(1)] scan_ok_report [OF assms(2)]
    alive_devices_sorted [of w] alive_devices_ips [of w]
  by (simp add: frame_schedule)

text \<open>
  The sample host scanned with the probes completing in task order and in the reverse
  order.
\<close>

theorem devices_order_deterministic_witness:
  "scan_network sample_env
     = Some (Ok200 (sample_report ''t3''),
             \<lparr>probed = sample_probes,
              attempted =
                [\<lparr>row_ip = ''192.168.1.1'', row_status = ''alive'', row_scanned_at = ''t0''\<rparr>,
                 \<lparr>row_ip = ''192.168.1.50'', row_status = ''alive'', row_scanned_at = ''t1''\<rparr>,
                 \<lparr>row_ip = ''192.168.1.254'', row_status = ''alive'', row_scanned_at = ''t2''\<rparr>],
              logged = [], clock_reads = 4\<rparr>)
   \<and> completion_order reversed_env = rev (completion_order sample_env)
   \<and> scan_network reversed_env = scan_network sample_env
   \<and> devices (sample_report ''t3'') = sample_devices
   \<and> sorted_wrt (<) (map (last_octet \<circ> ip) sample_devices)
   \<and> map ip sample_devices
       = filter (responds sample_env) (candidate_ips (subnet_base ''192.168.1.10''))"
proof -
  have same: "sample_env\<lparr>completion_order := rev [0..<254],
                 insert_scan := insert_scan sample_env, utcnow := utcnow sample_env\<rparr>
               = reversed_env"
    by (simp add: reversed_env_def sample_env_def del: upt_rec_numeral)
  have "scan_network (sample_env\<lparr>completion_order := rev [0..<254],
                 insert_scan := insert_scan sample_env, utcnow := utcnow sample_env\<rparr>)
       = Some (Ok200 (sample_report ''t3''),
             \<lparr>probed = sample_probes,
              attempted =
                [\<lparr>row_ip = ''192.168.1.1'', row_status = ''alive'', row_scanned_at = ''t0''\<rparr>,
                 \<lparr>row_ip = ''192.168.1.50'', row_status = ''alive'', row_scanned_at = ''t1''\<rparr>,
                 \<lparr>row_ip = ''192.168.1.254'', row_status = ''alive'', row_scanned_at = ''t2''\<rparr>],
              logged = [], clock_reads = 4\<rparr>)"
    by (subst same) (rule reversed_scan)
  from devices_order_deterministic [OF sample_scan this]
  have "sorted_wrt (<) (map (last_octet \<circ> ip) sample_devices)
      \<and> map ip sample_devices
          = filter (responds sample_env) (candidate_ips (subnet_base ''192.168.1.10''))"
    by (simp add: sample_report_def)
  moreover have "completion_order reversed_env = rev (completion_order sample_env)"
    by (simp add: reversed_env_def sample_env_def del: upt_rec_numeral)
  moreover have "devices (sample_report ''t3'') = sample_devices"
    by (simp add: sample_report_def)
  ultimately show ?thesis
    using sample_scan reversed_scan by simp
qed

section \<open>Falling back to the loopback address\<close>

text \<open>
  Claim C6. When the resolution of the host name fails, the scan does not abort: it
  behaves in every respect as on a host that resolves to 127.0.0.1, so the devices are
  among 127.0.0.1 to 127.0.0.254 and, when a loop runs and the probes complete, the
  report carries the local address 127.0.0.1 after those 254 addresses were probed.
\<close>

theorem resolution_failure_falls_back:
  assumes "gethostbyname w (gethostname w) = Inl e"
  shows "scan_network w = scan_network (w\<lparr>gethostbyname := (\<lambda>h. Inr ''127.0.0.1'')\<rparr>)
       \<and> set (map ip (alive_devices w)) \<subseteq> set (candidate_ips ''127.0.0.'')
       \<and> (loop_runs w \<and> all_probes_complete w \<longrightarrow>
            (\<exists>ts fx. scan_network w
                 = Some (Ok200 \<lparr>local_ip = ''127.0.0.1'', devices = alive_devices w,
                                timestamp = Some ts\<rparr>, fx)
               \<and> probed fx = map (ping_argv (ping_param w)) (candidate_ips ''127.0.0.'')))"
proof -
  have loc: "resolve_local_ip w = ''127.0.0.1''"
    using assms by (simp add: resolve_local_ip_def)
  have base: "subnet_base ''127.0.0.1'' = ''127.0.0.''"
    by (simp add: subnet_base_def)
  have "resolve_local_ip (w\<lparr>gethostbyname := (\<lambda>h. Inr ''127.0.0.1'')\<rparr>) = resolve_local_ip w"
    by (simp add: loc) (simp add: resolve_local_ip_def)
  then have same: "scan_network w = scan_network (w\<lparr>gethostbyname := (\<lambda>h. Inr ''127.0.0.1'')\<rparr>)"
    by (simp add: scan_network_frame)
  have sub: "set (map ip (alive_devices w)) \<subseteq> set (candidate_ips ''127.0.0.'')"
    using alive_devices_bounds [of w] by (simp add: loc base)
  have "\<exists>ts fx. scan_network w
                 = Some (Ok200 \<lparr>local_ip = ''127.0.0.1'', devices = alive_devices w,
                                timestamp = Some ts\<rparr>, fx)
               \<and> probed fx = map (ping_argv (ping_param w)) (candidate_ips ''127.0.0.'')"
    if "loop_runs w" "all_probes_complete w"
  proof -
    from scan_ok_exists [OF that] obtain ts fx
      where s: "scan_network w
                  = Some (Ok200 \<lparr>local_ip = resolve_local_ip w, devices = alive_devices w,
                                 timestamp = Some ts\<rparr>, fx)"
      by blast
    from scan_ok_report [OF s] s show ?thesis
      by (auto simp: loc base)
  qed
  with same sub show ?thesis by blast
qed

text \<open>
  The sample host with a resolver that raises.
\<close>

theorem resolution_failure_falls_back_witness:
  "gethostbyname unresolved_env (gethostname unresolved_env) = Inl (OtherException ''gaierror'')
   \<and> loop_runs unresolved_env \<and> all_probes_complete unresolved_env
   \<and> scan_network unresolved_env
       = scan_network (unresolved_env\<lparr>gethostbyname := (\<lambda>h. Inr ''127.0.0.1'')\<rparr>)
   \<and> scan_network unresolved_env
       = Some (Ok200 \<lparr>local_ip = ''127.0.0.1'', devices = [], timestamp = Some ''t0''\<rparr>,
               \<lparr>probed = map (ping_argv ''-c'') (candidate_ips ''127.0.0.''),
                attempted = [], logged = [], clock_reads = 1\<rparr>)
   \<and> take 2 (candidate_ips ''127.0.0.'') = [''127.0.0.1'', ''127.0.0.2'']"
  using resolution_failure_falls_back [OF unresolved_env_reads(1)]
    unresolved_env_reads(1-3) unresolved_scan candidate_ips_take2 [of "''127.0.0.''"]
  by simp

section \<open>Saving the devices\<close>

text \<open>
  Claim C7 as stated fails: it has the scan try to save each alive device even when
  the store raises on every call. On the sample host with such a store three devices
  are alive and one insert is tried, the one of 192.168.1.1; its exception ends the
  loop, is logged, and the report is returned.
\<close>

theorem failing_store_stops_saving:
  "scan_network failing_store_env
     = Some (Ok200 \<lparr>local_ip = ''192.168.1.10'',
                    devices = [\<lparr>ip = ''192.168.1.1'', status = ''alive''\<rparr>,
                               \<lparr>ip = ''192.168.1.50'', status = ''alive''\<rparr>,
                               \<lparr>ip = ''192.168.1.254'', status = ''alive''\<rparr>],
                    timestamp = Some ''t1''\<rparr>,
             \<lparr>probed = sample_probes,
              attempted =
                [\<lparr>row_ip = ''192.168.1.1'', row_status = ''alive'', row_scanned_at = ''t0''\<rparr>],
              logged = [''Supabase save_scan_to_supabase error: store down''],
              clock_reads = 2\<rparr>)"
  using failing_store_scan by (simp add: sample_report_def sample_devices_def)

text \<open>
  Claim C7, amended. The scan tries to save the alive devices in order, up to and
  including the first whose insert raises; that failure is logged, once, and the
  devices after it are not tried. The failures of the store never affect the returned
  report: with any other store the response is the same up to its time stamp (so no
  exception of the store reaches the caller) and the same probes are asked for. In a
  call that returns a report, the rows tried are those up to the first failing insert,
  the log holds the one line of that failure and is empty when no insert fails, and the
  time stamp is the clock reading that follows the attempted inserts.
\<close>

theorem persistence_never_changes_report:
  "map_option (\<lambda>(resp, fx). (unstamped resp, probed fx))
       (scan_network (w\<lparr>insert_scan := sink\<rparr>))
     = map_option (\<lambda>(resp, fx). (unstamped resp, probed fx)) (scan_network w)
   \<and> (scan_network w = Some (Ok200 r, fx) \<longrightarrow>
        attempted fx = through_first (\<lambda>row. insert_scan w row \<noteq> None)
                         (rows_for w 0 (devices r))
        \<and> logged fx
            = (case first_failure (insert_scan w) (rows_for w 0 (devices r)) of
                 None \<Rightarrow> []
               | Some e \<Rightarrow> [''Supabase save_scan_to_supabase error: '' @ exc_str e])
        \<and> clock_reads fx = Suc (length (attempted fx))
        \<and> timestamp r = Some (utcnow w (length (attempted fx))))"
proof -
  have "map_option (\<lambda>(resp, fx). (unstamped resp, probed fx))
            (scan_network (w\<lparr>insert_scan := sink\<rparr>))
          = map_option (\<lambda>(resp, fx). (unstamped resp, probed fx)) (scan_network w)"
    unfolding scan_shape
    by (simp add: frame_insert_scan split: option.splits py_exception.splits)
  moreover have "attempted fx = through_first (\<lambda>row. insert_scan w row \<noteq> None)
                         (rows_for w 0 (devices r))
        \<and> logged fx
            = (case first_failure (insert_scan w) (rows_for w 0 (devices r)) of
                 None \<Rightarrow> []
               | Some e \<Rightarrow> [''Supabase save_scan_to_supabase error: '' @ exc_str e])
        \<and> clock_reads fx = Suc (length (attempted fx))
        \<and> timestamp r = Some (utcnow w (length (attempted fx)))"
    if "scan_network w = Some (Ok200 r, fx)"
    using scan_ok_report [OF that] scan_ok_logged [OF that] by simp
  ultimately show ?thesis by blast
qed

text \<open>
  The sample host with the store that raises, against the one with the working store.
\<close>

theorem persistence_never_changes_report_witness:
  "map_option (\<lambda>(resp, fx). (unstamped resp, probed fx)) (scan_network failing_store_env)
     = map_option (\<lambda>(resp, fx). (unstamped resp, probed fx)) (scan_network sample_env)
   \<and> scan_network failing_store_env
       = Some (Ok200 (sample_report ''t1''),
               \<lparr>probed = sample_probes,
                attempted =
                  [\<lparr>row_ip = ''192.168.1.1'', row_status = ''alive'', row_scanned_at = ''t0''\<rparr>],
                logged = [''Supabase save_scan_to_supabase error: store down''],
                clock_reads = 2\<rparr>)
   \<and> through_first (\<lambda>row. insert_scan failing_store_env row \<noteq> None)
         (rows_for failing_store_env 0 (devices (sample_report ''t1'')))
       = [\<lparr>row_ip = ''192.168.1.1'', row_status = ''alive'', row_scanned_at = ''t0''\<rparr>]
   \<and> (case first_failure (insert_scan failing_store_env)
               (rows_for failing_store_env 0 (devices (sample_report ''t1''))) of
         None \<Rightarrow> []
       | Some e \<Rightarrow> [''Supabase save_scan_to_supabase error: '' @ exc_str e])
       = [''Supabase save_scan_to_supabase error: store down'']
   \<and> timestamp (sample_report ''t1'') = Some (utcnow failing_store_env 1)"
proof -
  let ?fx = "\<lparr>probed = sample_probes,
                attempted =
                  [\<lparr>row_ip = ''192.168.1.1'', row_status = ''alive'', row_scanned_at = ''t0''\<rparr>],
                logged = [''Supabase save_scan_to_supabase error: store down''],
                clock_reads = 2\<rparr>"
  have "map_option (\<lambda>(resp, fx). (unstamped resp, probed fx)) (scan_network failing_store_env)
     = map_option (\<lambda>(resp, fx). (unstamped resp, probed fx)) (scan_network sample_env)"
    unfolding failing_store_env_def
    using persistence_never_changes_report
      [where w = sample_env and sink = "\<lambda>row. Some (OtherException ''store down'')"]
    by blast
  moreover from persistence_never_changes_report [where w = failing_store_env] failing_store_scan
  have "attempted ?fx
          = through_first (\<lambda>row. insert_scan failing_store_env row \<noteq> None)
              (rows_for failing_store_env 0 (devices (sample_report ''t1'')))
        \<and> logged ?fx
          = (case first_failure (insert_scan failing_store_env)
               (rows_for failing_store_env 0 (devices (sample_report ''t1''))) of
               None \<Rightarrow> []
             | Some e \<Rightarrow> [''Supabase save_scan_to_supabase error: '' @ exc_str e])
        \<and> timestamp (sample_report ''t1'')
          = Some (utcnow failing_store_env (length (attempted ?fx)))"
    by blast
  ultimately show ?thesis
    using failing_store_scan by simp
qed

section \<open>The invariant of the devices\<close>

text \<open>
  Claim C9. In every returned report the devices are at most 254, their addresses are
  pairwise different, and each is one of the candidates of the subnet derived from the
  local address of the report; each has the status alive.
\<close>

theorem devices_invariant:
  assumes "scan_network w = Some (Ok200 r, fx)"
  shows "length (devices r) \<le> 254
       \<and> distinct (map ip (devices r))
       \<and> set (map ip (devices r)) \<subseteq> set (candidate_ips (subnet_base (local_ip r)))
       \<and> list_all (\<lambda>d. status d = ''alive'') (devices r)"
  using scan_ok_report [OF assms] alive_devices_bounds [of w] alive_devices_status [of w]
  by simp

text \<open>
  The report of the sample host.
\<close>

theorem devices_invariant_witness:
  "scan_network sample_env
     = Some (Ok200 (sample_report ''t3''),
             \<lparr>probed = sample_probes,
              attempted =
                [\<lparr>row_ip = ''192.168.1.1'', row_status = ''alive'', row_scanned_at = ''t0''\<rparr>,
                 \<lparr>row_ip = ''192.168.1.50'', row_status = ''alive'', row_scanned_at = ''t1''\<rparr>,
                 \<lparr>row_ip = ''192.168.1.254'', row_status = ''alive'', row_scanned_at = ''t2''\<rparr>],
              logged = [], clock_reads = 4\<rparr>)
   \<and> devices (sample_report ''t3'') = sample_devices
   \<and> length sample_devices \<le> 254 \<and> distinct (map ip sample_devices)
   \<and> set (map ip sample_devices) \<subseteq> set (candidate_ips (subnet_base ''192.168.1.10''))
   \<and> list_all (\<lambda>d. status d = ''alive'') sample_devices"
  using devices_invariant [OF sample_scan]
  by (simp add: sample_scan sample_report_def)

end
